theory Spec2Isabelle
  imports Main "HOL-Library.Word"
begin

unbundle bit_operations_syntax

section \<open>Data model of find.cpp\<close>

text \<open>
  The integer types are those of Linux on x86-64: \<open>int\<close> has 32 bits, \<open>long long\<close>,
  \<open>ino_t\<close>, \<open>nlink_t\<close> and \<open>off_t\<close> have 64 bits. \<open>off_t\<close> and \<open>int\<close> are signed
  and are read with \<open>sint\<close>; \<open>ino_t\<close> and \<open>nlink_t\<close> are unsigned.
\<close>

type_synonym c_int = "32 word"
type_synonym long_long = "64 word"
type_synonym ino_t = "64 word"
type_synonym nlink_t = "64 word"
type_synonym off_t = "64 word"
type_synonym mode_t = "32 word"

datatype sizeArea = EMPTY | LESS | GREATER | EQUAL

text \<open>
  \<open>struct Request\<close>. The member \<open>size\<close> is called \<open>size_rq\<close> here, since \<open>size\<close> is
  a constant of HOL.
\<close>

record Request =
  filePath :: string
  inumNeeded :: bool
  nameNeeded :: bool
  sizeNeeded :: bool
  nlinksNeeded :: bool
  execNeeded :: bool
  inodeNumber :: ino_t
  name :: string
  executionPath :: string
  nlinkNumber :: nlink_t
  size_rq :: off_t
  neededSizeArea :: sizeArea

text \<open>
  \<open>Request request;\<close> in \<open>main\<close>: the members with an initialiser get it, the strings
  are empty, and \<open>inodeNumber\<close>, \<open>nlinkNumber\<close> and \<open>size\<close> have no initialiser: they
  hold indeterminate values, which the model takes as parameters.
\<close>

definition Request_init :: "ino_t \<Rightarrow> nlink_t \<Rightarrow> off_t \<Rightarrow> Request" where
  "Request_init i n s =
     \<lparr>filePath = [], inumNeeded = False, nameNeeded = False, sizeNeeded = False,
      nlinksNeeded = False, execNeeded = False, inodeNumber = i, name = [],
      executionPath = [], nlinkNumber = n, size_rq = s, neededSizeArea = EMPTY\<rparr>"

text \<open>The members of \<open>struct stat\<close> that the program reads.\<close>

record stat =
  st_ino :: ino_t
  st_mode :: mode_t
  st_nlink :: nlink_t
  st_size :: off_t

text \<open>\<open>struct stat sb{}\<close>: every member is zero.\<close>

definition stat_zero :: stat where
  "stat_zero = \<lparr>st_ino = 0, st_mode = 0, st_nlink = 0, st_size = 0\<rparr>"

text \<open>\<open>S_ISDIR(m)\<close> is \<open>(m & S_IFMT) == S_IFDIR\<close>, with the octal masks 0170000 and 0040000.\<close>

definition S_ISDIR :: "mode_t \<Rightarrow> bool" where
  "S_ISDIR m = (m AND 0xF000 = 0x4000)"

section \<open>Parsing the command line\<close>

text \<open>
  Every failure of the parser is \<open>printErr(message)\<close> followed by
  \<open>exit(EXIT_FAILURE)\<close>; \<open>ExitFailure message\<close> stands for the two together.
\<close>

datatype abort = ExitFailure string

text \<open>
  \<open>std::stoll(number)\<close> in base 10, as \<open>strtoll\<close> reads it: leading white space is
  skipped, one sign is optional, the longest run of decimal digits is the number and
  whatever follows is ignored. No digit throws \<open>std::invalid_argument\<close>, a value outside
  \<open>long long\<close> throws \<open>std::out_of_range\<close>; \<open>what()\<close> of both is \<open>stoll\<close>.
\<close>

datatype exn = invalid_argument string | out_of_range string

fun what :: "exn \<Rightarrow> string" where
  "what (invalid_argument m) = m"
| "what (out_of_range m) = m"

definition isspace :: "char \<Rightarrow> bool" where
  "isspace c = (let n = (of_char c :: nat) in n = 32 \<or> (9 \<le> n \<and> n \<le> 13))"

definition isdigit :: "char \<Rightarrow> bool" where
  "isdigit c = (let n = (of_char c :: nat) in 48 \<le> n \<and> n \<le> 57)"

definition digit_val :: "char \<Rightarrow> int" where
  "digit_val c = int (of_char c) - 48"

definition decimal :: "string \<Rightarrow> int" where
  "decimal ds = foldl (\<lambda>a c. 10 * a + digit_val c) 0 ds"

definition stoll :: "string \<Rightarrow> exn + long_long" where
  "stoll str =
     (let s1 = dropWhile isspace str;
          neg = (s1 \<noteq> [] \<and> hd s1 = CHR ''-'');
          s2 = (if s1 \<noteq> [] \<and> (hd s1 = CHR ''-'' \<or> hd s1 = CHR ''+'') then tl s1 else s1);
          ds = takeWhile isdigit s2;
          v = (if neg then - decimal ds else decimal ds)
      in if ds = [] then Inl (invalid_argument ''stoll'')
         else if v < - (2 ^ 63) \<or> 2 ^ 63 - 1 < v then Inl (out_of_range ''stoll'')
         else Inr (word_of_int v))"

text \<open>
  \<open>parseNumber\<close>: the \<open>long long\<close> that \<open>stoll\<close> returns is assigned to \<open>int result\<close>,
  which keeps its low 32 bits.
\<close>

definition parseNumber :: "string \<Rightarrow> abort + c_int" where
  "parseNumber number =
     (case stoll number of
        Inl e \<Rightarrow> Inl (ExitFailure (what e))
      | Inr v \<Rightarrow> Inr (ucast v))"

text \<open>\<open>value[0]\<close> of a \<open>std::string\<close>: the terminating null character when it is empty.\<close>

definition char_at0 :: "string \<Rightarrow> char" where
  "char_at0 v = (case v of [] \<Rightarrow> CHR 0x00 | c # _ \<Rightarrow> c)"

text \<open>
  The body of the loop of \<open>parseArgs\<close> for one pair \<open>argument\<close>, \<open>value\<close>. The \<open>int\<close>
  that \<open>parseNumber\<close> returns is converted to the member's 64-bit type with sign
  extension (\<open>scast\<close>).
\<close>

definition parseArg :: "Request \<Rightarrow> string \<Rightarrow> string \<Rightarrow> abort + Request" where
  "parseArg request argument val =
     (if argument = ''-inum'' \<or> argument = ''-nlinks'' then
        (case parseNumber val of
           Inl a \<Rightarrow> Inl a
         | Inr numericValue \<Rightarrow>
             if argument = ''-inum'' then Inr (request\<lparr>inodeNumber := scast numericValue\<rparr>)
             else Inr (request\<lparr>nlinkNumber := scast numericValue\<rparr>))
      else if argument = ''-name'' then
        Inr (request\<lparr>nameNeeded := True, name := val\<rparr>)
      else if argument = ''-path'' then
        Inr (request\<lparr>nameNeeded := True, name := val\<rparr>)
      else if argument = ''-size'' then
        (case (if char_at0 val = CHR ''-'' then Inr (request\<lparr>neededSizeArea := LESS\<rparr>)
               else if char_at0 val = CHR ''='' then Inr (request\<lparr>neededSizeArea := EQUAL\<rparr>)
               else if char_at0 val = CHR ''+'' then Inr (request\<lparr>neededSizeArea := GREATER\<rparr>)
               else Inl (ExitFailure ''Invalid value for -size argument'')) of
           Inl a \<Rightarrow> Inl a
         | Inr request1 \<Rightarrow>
             (case parseNumber (drop 1 val) of
                Inl a \<Rightarrow> Inl a
              | Inr n \<Rightarrow> Inr (request1\<lparr>size_rq := scast n\<rparr>)))
      else if argument = ''-exec'' then
        Inr (request\<lparr>execNeeded := True, executionPath := val\<rparr>)
      else Inr request)"

text \<open>
  The loop \<open>for (int i = 2; i < argc; i += 2)\<close> over \<open>argv\<close>, where \<open>argc\<close> is the
  length of \<open>argv\<close>. \<open>argv[argc]\<close> is the null pointer, from which no \<open>std::string\<close>
  can be built: the model has no result there (\<open>None\<close>). \<open>main\<close> never calls
  \<open>parseArgs\<close> with such an \<open>argv\<close>.
\<close>

function parseArgs_loop :: "Request \<Rightarrow> string list \<Rightarrow> nat \<Rightarrow> (abort + Request) option" where
  "parseArgs_loop request argv i =
     (if i < length argv then
        (if i + 1 < length argv then
           (case parseArg request (argv ! i) (argv ! (i + 1)) of
              Inl a \<Rightarrow> Some (Inl a)
            | Inr request' \<Rightarrow> parseArgs_loop request' argv (i + 2))
         else None)
      else Some (Inr request))"
  by pat_completeness auto
termination
  by (relation "measure (\<lambda>(request, argv, i). length argv - i)") auto

declare parseArgs_loop.simps [simp del]

definition parseArgs :: "Request \<Rightarrow> string list \<Rightarrow> (abort + Request) option" where
  "parseArgs request argv =
     (case parseArgs_loop request argv 2 of
        Some (Inr request') \<Rightarrow>
          if 1 < length argv then Some (Inr (request'\<lparr>filePath := argv ! 1\<rparr>)) else None
      | r \<Rightarrow> r)"

section \<open>The predicate\<close>

definition checkStat :: "Request \<Rightarrow> stat \<Rightarrow> string \<Rightarrow> bool" where
  "checkStat request st nm =
     (if inumNeeded request \<and> st_ino st \<noteq> inodeNumber request then False
      else if nlinksNeeded request \<and> st_nlink st \<noteq> nlinkNumber request then False
      else if nameNeeded request \<and> nm \<noteq> name request then False
      else if sizeNeeded request then
        (if neededSizeArea request = LESS then
           (if sint (size_rq request) \<le> sint (st_size st) then False else True)
         else if neededSizeArea request = EQUAL then
           (if st_size st \<noteq> size_rq request then False else True)
         else if neededSizeArea request = GREATER then
           (if sint (st_size st) \<le> sint (size_rq request) then False else True)
         else True)
      else True)"

section \<open>The file system and the calls into it\<close>

text \<open>
  What the program cannot see in its own text is a parameter of the model:
  \<^item> \<open>dir_entries p\<close> is \<open>None\<close> when \<open>opendir(p)\<close> fails, and otherwise the names that
    successive calls of \<open>readdir\<close> on the new stream return, in that order;
  \<^item> \<open>link_stat p\<close> is \<open>None\<close> when \<open>lstat(p, &sb)\<close> fails, and otherwise what it
    stores in \<open>sb\<close>;
  \<^item> \<open>fork_ok\<close>, \<open>execve_ok\<close>, \<open>child_exit\<close> and \<open>waitpid_ok\<close> say how \<open>fork\<close>,
    \<open>execve\<close> in the child, the program it runs and \<open>waitpid\<close> end.
\<close>

record world =
  dir_entries :: "string \<Rightarrow> string list option"
  link_stat :: "string \<Rightarrow> stat option"
  fork_ok :: bool
  execve_ok :: "string \<Rightarrow> bool"
  child_exit :: "string \<Rightarrow> string list \<Rightarrow> nat"
  waitpid_ok :: bool

text \<open>
  The state the program changes: the directory streams opened so far (a \<open>DIR*\<close> that
  is not null is the index of its stream, which holds the entries not yet read), the
  handles passed to \<open>closedir\<close>, in order, the messages passed to \<open>printErr\<close> (the
  lines of standard error, without the text of \<open>errno\<close>), the lines written to
  standard output, and the child processes created, each with the program and the
  argument vector given to \<open>execve\<close>.
\<close>

record sys =
  streams :: "string list list"
  closed :: "nat list"
  errlog :: "string list"
  outlog :: "string list"
  forked :: "(string \<times> string list) list"

definition sys_init :: sys where
  "sys_init = \<lparr>streams = [], closed = [], errlog = [], outlog = [], forked = []\<rparr>"

type_synonym DIR_ptr = "nat option"

definition printErr :: "string \<Rightarrow> sys \<Rightarrow> sys" where
  "printErr message s = s\<lparr>errlog := errlog s @ [message]\<rparr>"

definition opendir :: "world \<Rightarrow> string \<Rightarrow> sys \<Rightarrow> DIR_ptr \<times> sys" where
  "opendir w p s =
     (case dir_entries w p of
        None \<Rightarrow> (None, s)
      | Some es \<Rightarrow> (Some (length (streams s)), s\<lparr>streams := streams s @ [es]\<rparr>))"

text \<open>\<open>readdir\<close> on a stream: the next entry, or null at the end (and for a handle that was never opened).\<close>

definition readdir :: "nat \<Rightarrow> sys \<Rightarrow> string option \<times> sys" where
  "readdir h s =
     (if h < length (streams s) then
        (case streams s ! h of
           [] \<Rightarrow> (None, s)
         | e # es \<Rightarrow> (Some e, s\<lparr>streams := (streams s)[h := es]\<rparr>))
      else (None, s))"

definition closedir :: "nat \<Rightarrow> sys \<Rightarrow> sys" where
  "closedir h s = s\<lparr>closed := closed s @ [h]\<rparr>"

text \<open>
  \<open>lstat(path, &sb)\<close>: 0 and the metadata on success; -1 on failure, and \<open>sb\<close> keeps
  what it held.
\<close>

definition lstat :: "world \<Rightarrow> string \<Rightarrow> stat \<Rightarrow> int \<times> stat" where
  "lstat w p sb = (case link_stat w p of None \<Rightarrow> (- 1, sb) | Some st \<Rightarrow> (0, st))"

section \<open>The walk\<close>

record BfsNode =
  dir :: DIR_ptr
  path :: string

text \<open>\<open>correctPath\<close>; \<open>path.back()\<close> of an empty string is undefined, as \<open>last []\<close> is.\<close>

definition correctPath :: "string \<Rightarrow> string" where
  "correctPath p = (if last p \<noteq> CHR ''/'' then p @ ''/'' else p)"

type_synonym walk = "BfsNode list \<times> string list \<times> sys"

text \<open>
  The body of the loop over the entries of one directory, for the entry \<open>fileName\<close>:
  the queue, the result and the state before, and after. \<open>file->d_name\<close> is an array
  and never null.
\<close>

definition visit :: "Request \<Rightarrow> world \<Rightarrow> string \<Rightarrow> string \<Rightarrow> walk \<Rightarrow> walk" where
  "visit request w cpath fileName = (\<lambda>(q, result, s).
     (let filePath = correctPath cpath in
      if \<not> (fileName = ''.'' \<or> fileName = ''..'') then
        (let fullPath = filePath @ fileName;
             nm = fileName;
             (rc, sb) = lstat w fullPath stat_zero
         in if rc \<noteq> 1 then
              (if S_ISDIR (st_mode sb) then
                 (let (nextDirectory, s') = opendir w fullPath s
                  in if nextDirectory = None
                     then (q @ [\<lparr>dir = nextDirectory, path = fullPath\<rparr>], result, s')
                     else (q, result, s'))
               else if checkStat request sb nm then (q, result @ [fullPath], s)
               else (q, result, s))
            else (q, result, printErr ''Unable to access file'' s))
      else (q, result, s)))"

text \<open>The entries of stream \<open>h\<close> that are still to be read.\<close>

definition remaining :: "nat \<Rightarrow> sys \<Rightarrow> nat" where
  "remaining h s = (if h < length (streams s) then length (streams s ! h) else 0)"

lemma remaining_readdir:
  "readdir h s = (Some e, s') \<Longrightarrow> remaining h s' < remaining h s \<and> h < length (streams s')"
  by (auto simp: readdir_def remaining_def split: if_splits list.splits)

lemma remaining_opendir:
  "opendir w p s = (d, s') \<Longrightarrow> h < length (streams s) \<Longrightarrow> remaining h s' = remaining h s"
  by (auto simp: opendir_def remaining_def nth_append split: option.splits)

lemma remaining_printErr: "remaining h (printErr m s) = remaining h s"
  by (simp add: printErr_def remaining_def)

lemma remaining_visit:
  "visit request w cpath fileName (q, result, s) = (q', result', s')
     \<Longrightarrow> h < length (streams s) \<Longrightarrow> remaining h s' = remaining h s"
  by (auto simp: visit_def Let_def remaining_printErr
      split: if_splits prod.splits dest: remaining_opendir [where h = h])

text \<open>\<open>while (dirent* file = readdir(current.dir)) { ... }\<close> for a handle that is not null.\<close>

function read_loop :: "Request \<Rightarrow> world \<Rightarrow> nat \<Rightarrow> string \<Rightarrow> walk \<Rightarrow> walk" where
  "read_loop request w h cpath (q, result, s) =
     (case readdir h s of
        (None, s') \<Rightarrow> (q, result, s')
      | (Some fileName, s') \<Rightarrow>
          read_loop request w h cpath (visit request w cpath fileName (q, result, s')))"
  by pat_completeness auto
termination
proof (relation "measure (\<lambda>(request, w, h, cpath, q, result, s). remaining h s)")
  show "wf (measure (\<lambda>(request, w, h, cpath, q, result, s). remaining h s))"
    by simp
next
  fix request :: Request and w :: world and h :: nat and cpath :: string
    and q :: "BfsNode list" and result :: "string list" and s s' :: sys
    and fileName :: string and x :: "string option"
  assume rd: "(x, s') = readdir h s" "x = Some fileName"
  obtain q1 r1 s1 where v: "visit request w cpath fileName (q, result, s') = (q1, r1, s1)"
    by (cases "visit request w cpath fileName (q, result, s')") auto
  have "readdir h s = (Some fileName, s')"
    using rd by (simp add: sym)
  then have less: "remaining h s' < remaining h s" and valid: "h < length (streams s')"
    by (simp_all add: remaining_readdir)
  have "remaining h s1 = remaining h s'"
    using v valid by (rule remaining_visit)
  with less show "((request, w, h, cpath, visit request w cpath fileName (q, result, s')),
        (request, w, h, cpath, q, result, s))
      \<in> measure (\<lambda>(request, w, h, cpath, q, result, s). remaining h s)"
    using v by simp
qed

declare read_loop.simps [simp del]

text \<open>The frames of the queue whose handle is not null.\<close>

definition live :: "BfsNode list \<Rightarrow> nat" where
  "live q = length (filter (\<lambda>n. dir n \<noteq> None) q)"

lemma live_visit: "live (fst (visit request w cpath fileName wk)) = live (fst wk)"
  by (cases wk) (auto simp: visit_def Let_def live_def split: if_splits prod.splits)

lemma live_read_loop: "live (fst (read_loop request w h cpath wk)) = live (fst wk)"
proof (induction request w h cpath wk rule: read_loop.induct)
  case (1 request w h cpath q result s)
  show ?case
  proof (cases "readdir h s")
    case (Pair x s')
    show ?thesis
    proof (cases x)
      case None
      with Pair show ?thesis by (simp add: read_loop.simps)
    next
      case (Some fileName)
      with Pair "1.IH" [of x s' fileName]
      have "live (fst (read_loop request w h cpath (q, result, s)))
          = live (fst (visit request w cpath fileName (q, result, s')))"
        by (simp add: read_loop.simps [of _ _ _ _ q result s])
      then show ?thesis by (simp add: live_visit)
    qed
  qed
qed

text \<open>
  \<open>while (!q.empty()) { ... }\<close>. The loop reads the front frame with \<open>readdir\<close>
  whatever its handle is. \<open>readdir\<close> of a null pointer is undefined; the C library
  dereferences it and the process is killed by the signal: the model stops there with
  \<open>None\<close> for the result.
\<close>

function bfs_loop :: "Request \<Rightarrow> world \<Rightarrow> walk \<Rightarrow> string list option \<times> sys" where
  "bfs_loop request w ([], result, s) = (Some result, s)"
| "bfs_loop request w (current # q, result, s) =
     (case dir current of
        None \<Rightarrow> (None, s)
      | Some h \<Rightarrow>
          (case read_loop request w h (path current) (q, result, s) of
             (q', result', s') \<Rightarrow> bfs_loop request w (q', result', closedir h s')))"
  by pat_completeness auto
termination
proof (relation "measure (\<lambda>(request, w, q, result, s). live q)")
  show "wf (measure (\<lambda>(request, w, q, result, s). live q))"
    by simp
next
  fix request :: Request and w :: world and current :: BfsNode
    and q q' :: "BfsNode list" and result result' :: "string list" and s s' :: sys
    and h :: nat and y :: "string list \<times> sys"
  assume a: "dir current = Some h"
    "(q', y) = read_loop request w h (path current) (q, result, s)"
    "(result', s') = y"
  have "live (fst (read_loop request w h (path current) (q, result, s))) = live q"
    by (simp add: live_read_loop)
  moreover have "fst (read_loop request w h (path current) (q, result, s)) = q'"
    using a(2) by (metis fst_conv)
  ultimately have "live q' = live q"
    by simp
  then show "((request, w, q', result', closedir h s'), request, w, current # q, result, s)
      \<in> measure (\<lambda>(request, w, q, result, s). live q)"
    using a(1) by (simp add: live_def)
qed

declare bfs_loop.simps [simp del]

definition bfs :: "Request \<Rightarrow> world \<Rightarrow> sys \<Rightarrow> string list option \<times> sys" where
  "bfs request w s =
     (let result = [];
          (root, s1) = opendir w (filePath request) s;
          q = [\<lparr>dir = root, path = filePath request\<rparr>]
      in if root \<noteq> None then bfs_loop request w (q, result, s1)
         else (Some result, printErr ''Unable to access root directory'' s1))"

section \<open>The post-action and the driver\<close>

text \<open>\<open>%d\<close> of a number that is not negative.\<close>

fun dec :: "nat \<Rightarrow> string" where
  "dec n = (if n < 10 then [char_of (48 + n)] else dec (n div 10) @ [char_of (48 + n mod 10)])"

declare dec.simps [simp del]

text \<open>
  \<open>execute\<close>. The first component of the result is the status the process exits
  with inside \<open>execute\<close>, or \<open>None\<close> when \<open>execute\<close> returns. The child shares
  standard error with its parent: when \<open>execve\<close> fails its message is in \<open>errlog\<close>,
  and it exits with \<open>EXIT_FAILURE\<close>, which \<open>waitpid\<close> hands to the parent.
\<close>

definition EXIT_SUCCESS :: int where "EXIT_SUCCESS = 0"
definition EXIT_FAILURE :: int where "EXIT_FAILURE = 1"

definition execute :: "world \<Rightarrow> string \<Rightarrow> string list \<Rightarrow> sys \<Rightarrow> int option \<times> sys" where
  "execute w command args s =
     (if \<not> fork_ok w then
        (Some EXIT_FAILURE, printErr ''Unable to create child process'' s)
      else
        (let charArgs = command # args;
             s1 = s\<lparr>forked := forked s @ [(command, charArgs)]\<rparr>;
             s2 = (if execve_ok w command then s1 else printErr ''Execution failed'' s1);
             waitingStatus = (if execve_ok w command then child_exit w command charArgs
                              else nat EXIT_FAILURE)
         in if \<not> waitpid_ok w then (None, printErr ''Error while waiting'' s2)
            else (None, s2\<lparr>outlog := outlog s2
                    @ [''Process finished with exit code '' @ dec waitingStatus]\<rparr>)))"

text \<open>How the process ends: \<open>exit\<close> with a status, or killed by a signal.\<close>

datatype status = Exited int | Killed

text \<open>
  \<open>main\<close>, for the argument vector \<open>argv\<close> (\<open>argc\<close> is its length) and the
  indeterminate initial values \<open>i\<close>, \<open>n\<close>, \<open>sz\<close> of the members of \<open>request\<close>
  without initialiser. The result is how the process ends, and the final state.
\<close>

definition main :: "world \<Rightarrow> ino_t \<Rightarrow> nlink_t \<Rightarrow> off_t \<Rightarrow> string list \<Rightarrow> status \<times> sys" where
  "main w i n sz argv =
     (let argc = int (length argv);
          request = Request_init i n sz
      in if argc < 2 \<or> (argc - 2) mod 2 = 1 then
           (Exited EXIT_FAILURE, printErr ''Invalid number of arguments'' sys_init)
         else
           (case parseArgs request argv of
              None \<Rightarrow> (Killed, sys_init)
            | Some (Inl (ExitFailure message)) \<Rightarrow>
                (Exited EXIT_FAILURE, printErr message sys_init)
            | Some (Inr request') \<Rightarrow>
                (case bfs request' w sys_init of
                   (None, s) \<Rightarrow> (Killed, s)
                 | (Some files, s) \<Rightarrow>
                     if execNeeded request' then
                       (case execute w (executionPath request') files s of
                          (Some c, s') \<Rightarrow> (Exited c, s')
                        | (None, s') \<Rightarrow> (Exited EXIT_SUCCESS, s'))
                     else (Exited EXIT_SUCCESS, s\<lparr>outlog := outlog s @ files\<rparr>))))"

section \<open>Concrete file systems\<close>

definition mk_stat :: "ino_t \<Rightarrow> mode_t \<Rightarrow> nlink_t \<Rightarrow> off_t \<Rightarrow> stat" where
  "mk_stat i m n z = \<lparr>st_ino = i, st_mode = m, st_nlink = n, st_size = z\<rparr>"

text \<open>
  The tree of the end-to-end scenarios: \<open>/tmp/t\<close> holds the regular files \<open>a\<close>
  (10 bytes, inode 11, one link) and \<open>b\<close> (20 bytes, inode 12, two links) and the
  readable directory \<open>d\<close>, which holds the regular file \<open>c\<close> (5 bytes). Every call
  succeeds, and the program run by \<open>-exec\<close> exits with 0.
\<close>

definition tree_world :: world where
  "tree_world =
     \<lparr>dir_entries = (\<lambda>p.
        if p = ''/tmp/t'' then Some [''.'', ''..'', ''a'', ''b'', ''d'']
        else if p = ''/tmp/t/d'' then Some [''.'', ''..'', ''c'']
        else None),
      link_stat = (\<lambda>p.
        if p = ''/tmp/t/a'' then Some (mk_stat 11 0x81A4 1 10)
        else if p = ''/tmp/t/b'' then Some (mk_stat 12 0x81A4 2 20)
        else if p = ''/tmp/t/d'' then Some (mk_stat 13 0x41ED 2 4096)
        else if p = ''/tmp/t/d/c'' then Some (mk_stat 14 0x81A4 1 5)
        else None),
      fork_ok = True,
      execve_ok = (\<lambda>p. True),
      child_exit = (\<lambda>p a. 0),
      waitpid_ok = True\<rparr>"

text \<open>
  A directory \<open>/srv\<close> that can be read but not searched: \<open>opendir\<close> and \<open>readdir\<close>
  succeed and give the entry \<open>x\<close>, and \<open>lstat\<close> of \<open>/srv/x\<close> fails.
\<close>

definition denied_world :: world where
  "denied_world =
     \<lparr>dir_entries = (\<lambda>p. if p = ''/srv'' then Some [''.'', ''..'', ''x''] else None),
      link_stat = (\<lambda>p. None),
      fork_ok = True,
      execve_ok = (\<lambda>p. True),
      child_exit = (\<lambda>p a. 0),
      waitpid_ok = True\<rparr>"

text \<open>
  The directory \<open>/mnt\<close> holds the regular file \<open>a\<close> and the directory \<open>d\<close>, which
  cannot be opened.
\<close>

definition locked_world :: world where
  "locked_world =
     \<lparr>dir_entries = (\<lambda>p. if p = ''/mnt'' then Some [''.'', ''..'', ''a'', ''d''] else None),
      link_stat = (\<lambda>p.
        if p = ''/mnt/a'' then Some (mk_stat 21 0x81A4 1 3)
        else if p = ''/mnt/d'' then Some (mk_stat 22 0x4000 2 4096)
        else None),
      fork_ok = True,
      execve_ok = (\<lambda>p. True),
      child_exit = (\<lambda>p a. 0),
      waitpid_ok = True\<rparr>"

section \<open>Notions used in the statements and in the proofs\<close>

text \<open>
  The flags of a command line \<open>find ROOT [FLAG VALUE]...\<close>: the arguments at the
  positions 2, 4, ... of \<open>argv\<close>. \<open>-exec P\<close> is supplied when one of them is
  \<open>-exec\<close>.
\<close>

fun flag_names :: "string list \<Rightarrow> string list" where
  "flag_names (a # v # rest) = a # flag_names rest"
| "flag_names rest = []"

definition exec_supplied :: "string list \<Rightarrow> bool" where
  "exec_supplied argv = (''-exec'' \<in> set (flag_names (drop 2 argv)))"


text \<open>
  \<open>enables p p'\<close>: the predicate \<open>p'\<close> is \<open>p\<close> with one more field enabled, that
  is, with one flag that is false in \<open>p\<close> set, and the value of that field chosen
  freely.
\<close>

definition enables :: "Request \<Rightarrow> Request \<Rightarrow> bool" where
  "enables p p' =
     ((\<not> inumNeeded p \<and> p' = p\<lparr>inumNeeded := True, inodeNumber := inodeNumber p'\<rparr>)
    \<or> (\<not> nlinksNeeded p \<and> p' = p\<lparr>nlinksNeeded := True, nlinkNumber := nlinkNumber p'\<rparr>)
    \<or> (\<not> nameNeeded p \<and> p' = p\<lparr>nameNeeded := True, name := name p'\<rparr>)
    \<or> (\<not> sizeNeeded p
        \<and> p' = p\<lparr>sizeNeeded := True, neededSizeArea := neededSizeArea p',
                 size_rq := size_rq p'\<rparr>))"

text \<open>The result set of a walk: the paths it returns, and none when it does not return.\<close>

definition matches :: "Request \<Rightarrow> world \<Rightarrow> string set" where
  "matches p w = (case fst (bfs p w sys_init) of None \<Rightarrow> {} | Some files \<Rightarrow> set files)"

text \<open>
  Two states of the walk that differ in the result only, the result of the first
  being included in the result of the second.
\<close>

definition sim :: "walk \<Rightarrow> walk \<Rightarrow> bool" where
  "sim wk' wk =
     (fst wk' = fst wk \<and> snd (snd wk') = snd (snd wk) \<and> set (fst (snd wk')) \<subseteq> set (fst (snd wk)))"

section \<open>Auxiliary facts\<close>

subsection \<open>The parser\<close>

lemma parseArg_Inl:
  "parseArg r a v = Inl x \<Longrightarrow>
     x = ExitFailure ''stoll'' \<or> x = ExitFailure ''Invalid value for -size argument''"
  by (auto simp: parseArg_def parseNumber_def stoll_def Let_def
      split: if_splits sum.splits)

lemma parseArg_bad_size:
  "char_at0 v \<noteq> CHR ''-'' \<Longrightarrow> char_at0 v \<noteq> CHR ''='' \<Longrightarrow> char_at0 v \<noteq> CHR ''+'' \<Longrightarrow>
     parseArg r ''-size'' v = Inl (ExitFailure ''Invalid value for -size argument'')"
  by (simp add: parseArg_def)

lemma parseArgs_loop_bad_size:
  assumes "k + 1 < length argv" "argv ! k = ''-size''"
    "char_at0 (argv ! (k + 1)) \<noteq> CHR ''-''" "char_at0 (argv ! (k + 1)) \<noteq> CHR ''=''"
    "char_at0 (argv ! (k + 1)) \<noteq> CHR ''+''"
  shows "k = j + 2 * d \<Longrightarrow>
     parseArgs_loop r argv j = Some (Inl (ExitFailure ''stoll''))
     \<or> parseArgs_loop r argv j = Some (Inl (ExitFailure ''Invalid value for -size argument''))"
proof (induction d arbitrary: r j)
  case 0
  then have "j = k" by simp
  moreover have "parseArgs_loop r argv k
      = Some (Inl (ExitFailure ''Invalid value for -size argument''))"
    using assms by (subst parseArgs_loop.simps) (simp add: parseArg_bad_size)
  ultimately show ?case by simp
next
  case (Suc d)
  then have j: "j < length argv" "j + 1 < length argv" and k: "k = (j + 2) + 2 * d"
    using assms(1) by simp_all
  show ?case
  proof (cases "parseArg r (argv ! j) (argv ! (j + 1))")
    case (Inl x)
    then show ?thesis
      using j parseArg_Inl [OF Inl] by (auto simp: parseArgs_loop.simps [of r argv j])
  next
    case (Inr r')
    then show ?thesis
      using j Suc.IH [OF k, of r'] by (simp add: parseArgs_loop.simps [of r argv j])
  qed
qed

lemma drop_pair:
  "j + 1 < length argv \<Longrightarrow> drop j argv = argv ! j # argv ! (j + 1) # drop (j + 2) argv"
  by (simp add: Cons_nth_drop_Suc)

lemma parseArg_exec:
  "parseArg r a v = Inr r' \<Longrightarrow> execNeeded r' = (execNeeded r \<or> a = ''-exec'')"
  by (auto simp: parseArg_def split: if_splits sum.splits)

lemma parseArgs_loop_exec:
  "parseArgs_loop r argv j = Some (Inr r') \<Longrightarrow>
     execNeeded r' = (execNeeded r \<or> ''-exec'' \<in> set (flag_names (drop j argv)))"
proof (induction r argv j rule: parseArgs_loop.induct)
  case (1 request argv i)
  show ?case
  proof (cases "i < length argv")
    case False
    with "1.prems" show ?thesis
      by (simp add: parseArgs_loop.simps [of request argv i])
  next
    case True
    with "1.prems" have i1: "i + 1 < length argv"
      by (simp add: parseArgs_loop.simps [of request argv i] split: if_splits)
    with True "1.prems" obtain r1 where
      r1: "parseArg request (argv ! i) (argv ! (i + 1)) = Inr r1"
      and rest: "parseArgs_loop r1 argv (i + 2) = Some (Inr r')"
      by (auto simp: parseArgs_loop.simps [of request argv i] split: sum.splits)
    have "execNeeded r' = (execNeeded r1 \<or> ''-exec'' \<in> set (flag_names (drop (i + 2) argv)))"
      using "1.IH" [OF True i1 r1 rest] .
    then show ?thesis
      using parseArg_exec [OF r1] by (auto simp: drop_pair [OF i1])
  qed
qed

lemma parseArgs_exec:
  assumes "parseArgs (Request_init i n sz) argv = Some (Inr request)"
  shows "execNeeded request = exec_supplied argv" and "filePath request = argv ! 1"
  using assms parseArgs_loop_exec [of "Request_init i n sz" argv 2]
  by (auto simp: parseArgs_def exec_supplied_def Request_init_def
      split: option.splits sum.splits if_splits)

text \<open>No command line sets the flags of the inode, link-count and size tests.\<close>

lemma parseArg_flags:
  "parseArg r a v = Inr r' \<Longrightarrow>
     inumNeeded r' = inumNeeded r \<and> nlinksNeeded r' = nlinksNeeded r
     \<and> sizeNeeded r' = sizeNeeded r"
  by (auto simp: parseArg_def split: if_splits sum.splits)

lemma parseArgs_loop_flags:
  "parseArgs_loop r argv j = Some (Inr r') \<Longrightarrow>
     inumNeeded r' = inumNeeded r \<and> nlinksNeeded r' = nlinksNeeded r
     \<and> sizeNeeded r' = sizeNeeded r"
proof (induction r argv j rule: parseArgs_loop.induct)
  case (1 request argv i)
  show ?case
  proof (cases "i < length argv")
    case False
    with "1.prems" show ?thesis
      by (simp add: parseArgs_loop.simps [of request argv i])
  next
    case True
    with "1.prems" have i1: "i + 1 < length argv"
      by (simp add: parseArgs_loop.simps [of request argv i] split: if_splits)
    with True "1.prems" obtain r1 where
      r1: "parseArg request (argv ! i) (argv ! (i + 1)) = Inr r1"
      and rest: "parseArgs_loop r1 argv (i + 2) = Some (Inr r')"
      by (auto simp: parseArgs_loop.simps [of request argv i] split: sum.splits)
    show ?thesis
      using "1.IH" [OF True i1 r1 rest] parseArg_flags [OF r1] by simp
  qed
qed

lemma parseArgs_never_enables:
  assumes "parseArgs (Request_init i n sz) argv = Some (Inr request)"
  shows "\<not> inumNeeded request \<and> \<not> nlinksNeeded request \<and> \<not> sizeNeeded request"
  using assms parseArgs_loop_flags [of "Request_init i n sz" argv 2]
  by (auto simp: parseArgs_def Request_init_def split: option.splits sum.splits if_splits)

lemma parseArgs_loop_defined:
  "length argv = j + 2 * d \<Longrightarrow> parseArgs_loop r argv j \<noteq> None"
proof (induction d arbitrary: r j)
  case 0
  then show ?case by (simp add: parseArgs_loop.simps [of r argv j])
next
  case (Suc d)
  then have "j < length argv" "j + 1 < length argv" "length argv = (j + 2) + 2 * d"
    by simp_all
  with Suc.IH [of "j + 2"] show ?case
    by (simp add: parseArgs_loop.simps [of r argv j] split: sum.splits)
qed

lemma parseArgs_defined:
  assumes "2 \<le> length argv" "even (length argv)"
  shows "parseArgs r argv \<noteq> None"
proof -
  obtain d where "length argv = 2 + 2 * d"
    using assms by (metis evenE le_Suc_ex mult_2 one_add_one dvd_add_right_iff dvd_triv_left)
  then have "parseArgs_loop r argv 2 \<noteq> None"
    by (rule parseArgs_loop_defined)
  with assms(1) show ?thesis
    by (auto simp: parseArgs_def split: option.splits sum.splits)
qed

subsection \<open>The result of \<open>lstat\<close> and the messages of the loop body\<close>

lemma lstat_result: "fst (lstat w p sb) = 0 \<or> fst (lstat w p sb) = - 1"
  by (simp add: lstat_def split: option.splits)

lemma visit_errlog: "errlog (snd (snd (visit r w c f wk))) = errlog (snd (snd wk))"
  by (cases wk) (auto simp: visit_def Let_def lstat_def opendir_def split: option.splits)

text \<open>
  A subdirectory that cannot be opened is enqueued with its null handle, and the walk
  ends in \<open>readdir\<close> on it: \<open>find /mnt\<close> is killed after the root has been read
  and closed, having reported and printed nothing.
\<close>

lemma unopenable_subdirectory_kills:
  "main locked_world i n sz [''find'', ''/mnt'']
     = (Killed, \<lparr>streams = [[]], closed = [0], errlog = [], outlog = [], forked = []\<rparr>)"
  by code_simp

subsection \<open>Numbers\<close>

lemma isdigit_not_space: "isdigit c \<Longrightarrow> \<not> isspace c"
  by (auto simp: isdigit_def isspace_def Let_def)

lemma isdigit_not_sign: "isdigit c \<Longrightarrow> c \<noteq> CHR ''-'' \<and> c \<noteq> CHR ''+''"
  by (auto simp: isdigit_def Let_def)

lemma foldl_digits_nonneg:
  "list_all isdigit ds \<Longrightarrow> 0 \<le> a \<Longrightarrow> 0 \<le> foldl (\<lambda>a c. 10 * a + digit_val c) a ds"
proof (induction ds arbitrary: a)
  case Nil
  then show ?case by simp
next
  case (Cons c ds)
  then have "0 \<le> 10 * a + digit_val c"
    by (simp add: isdigit_def digit_val_def Let_def)
  with Cons show ?case by simp
qed

lemma decimal_nonneg: "list_all isdigit ds \<Longrightarrow> 0 \<le> decimal ds"
  by (simp add: decimal_def foldl_digits_nonneg)

lemma int_of_long_long: "(ucast (word_of_int v :: long_long) :: c_int) = word_of_int v"
proof -
  have "(ucast (word_of_int v :: long_long) :: c_int) = word_of_int (take_bit 64 v)"
    by (simp only: unsigned_of_int of_int_eq_id id_apply) simp
  also have "\<dots> = word_of_int v"
    by (simp add: word_of_int_eq_iff min_def)
  finally show ?thesis .
qed

lemma stoll_digits:
  assumes "ds \<noteq> []" "list_all isdigit ds" "decimal ds < 2 ^ 63"
  shows "stoll ds = Inr (word_of_int (decimal ds))"
    and "stoll (CHR ''-'' # ds) = Inr (word_of_int (- decimal ds))"
proof -
  have c: "isdigit (hd ds)"
    using assms(1,2) by (cases ds) auto
  have dw: "dropWhile isspace ds = ds"
    using assms(1) isdigit_not_space [OF c] by (cases ds) auto
  have tw: "takeWhile isdigit ds = ds"
    using assms(2) by (simp add: takeWhile_eq_all_conv list_all_iff)
  have nn: "0 \<le> decimal ds"
    using assms(2) by (rule decimal_nonneg)
  have sp: "\<not> isspace (CHR ''-'')"
    by (simp add: isspace_def)
  show "stoll ds = Inr (word_of_int (decimal ds))"
    using nn assms(1,3) isdigit_not_sign [OF c]
    by (simp add: stoll_def Let_def dw tw)
  show "stoll (CHR ''-'' # ds) = Inr (word_of_int (- decimal ds))"
    using nn assms(1,3) sp by (simp add: stoll_def Let_def tw)
qed

subsection \<open>The walk writes nothing to standard output and creates no process\<close>

lemma io_opendir: "opendir w p s = (d, s') \<Longrightarrow> forked s' = forked s \<and> outlog s' = outlog s"
  by (auto simp: opendir_def split: option.splits)

lemma io_visit:
  "forked (snd (snd (visit r w c f wk))) = forked (snd (snd wk))
   \<and> outlog (snd (snd (visit r w c f wk))) = outlog (snd (snd wk))"
  by (cases wk) (auto simp: visit_def Let_def printErr_def split: if_splits prod.splits
      dest: io_opendir)

lemma io_readdir: "readdir h s = (x, s') \<Longrightarrow> forked s' = forked s \<and> outlog s' = outlog s"
  by (auto simp: readdir_def split: if_splits list.splits)

lemma io_read_loop:
  "forked (snd (snd (read_loop r w h c wk))) = forked (snd (snd wk))
   \<and> outlog (snd (snd (read_loop r w h c wk))) = outlog (snd (snd wk))"
proof (induction r w h c wk rule: read_loop.induct)
  case (1 request w h cpath q result s)
  obtain x s' where rd: "readdir h s = (x, s')"
    by (cases "readdir h s") auto
  show ?case
  proof (cases x)
    case None
    with rd show ?thesis
      using io_readdir [OF rd] by (simp add: read_loop.simps [of _ _ _ _ q result s])
  next
    case (Some fileName)
    with rd "1.IH" [of x s' fileName] io_visit [of request w cpath fileName "(q, result, s')"]
      io_readdir [OF rd]
    show ?thesis
      by (simp add: read_loop.simps [of _ _ _ _ q result s])
  qed
qed

lemma io_bfs_loop:
  "forked (snd (bfs_loop r w wk)) = forked (snd (snd wk))
   \<and> outlog (snd (bfs_loop r w wk)) = outlog (snd (snd wk))"
proof (induction r w wk rule: bfs_loop.induct)
  case (1 request w result s)
  show ?case by (simp add: bfs_loop.simps)
next
  case (2 request w current q result s)
  show ?case
  proof (cases "dir current")
    case None
    then show ?thesis by (simp add: bfs_loop.simps)
  next
    case (Some h)
    obtain q' result' s' where rl:
      "read_loop request w h (path current) (q, result, s) = (q', result', s')"
      by (cases "read_loop request w h (path current) (q, result, s)") auto
    with Some "2.IH" [of h q' "(result', s')" result' s']
      io_read_loop [of request w h "path current" "(q, result, s)"]
    show ?thesis
      by (simp add: closedir_def bfs_loop.simps)
  qed
qed

lemma io_bfs:
  "forked (snd (bfs r w s)) = forked s \<and> outlog (snd (bfs r w s)) = outlog s"
  using io_bfs_loop [of r w]
  by (auto simp: bfs_def Let_def printErr_def split: prod.splits dest: io_opendir)

subsection \<open>The predicate as a conjunction, and walks under a stronger predicate\<close>

lemma checkStat_iff:
  "checkStat r st nm \<longleftrightarrow>
     (inumNeeded r \<longrightarrow> st_ino st = inodeNumber r)
   \<and> (nlinksNeeded r \<longrightarrow> st_nlink st = nlinkNumber r)
   \<and> (nameNeeded r \<longrightarrow> nm = name r)
   \<and> (sizeNeeded r \<longrightarrow>
        (neededSizeArea r = LESS \<longrightarrow> sint (st_size st) < sint (size_rq r))
      \<and> (neededSizeArea r = EQUAL \<longrightarrow> st_size st = size_rq r)
      \<and> (neededSizeArea r = GREATER \<longrightarrow> sint (size_rq r) < sint (st_size st)))"
  by (auto simp: checkStat_def)

lemma enables_cases:
  assumes "enables p p'"
  obtains v where "\<not> inumNeeded p" "p' = p\<lparr>inumNeeded := True, inodeNumber := v\<rparr>"
  | v where "\<not> nlinksNeeded p" "p' = p\<lparr>nlinksNeeded := True, nlinkNumber := v\<rparr>"
  | v where "\<not> nameNeeded p" "p' = p\<lparr>nameNeeded := True, name := v\<rparr>"
  | a v where "\<not> sizeNeeded p"
      "p' = p\<lparr>sizeNeeded := True, neededSizeArea := a, size_rq := v\<rparr>"
  using assms unfolding enables_def by blast

lemma checkStat_enables:
  assumes "enables p p'" "checkStat p' st nm"
  shows "checkStat p st nm"
  using assms(1)
proof (cases rule: enables_cases)
  case (1 v)
  with assms(2) show ?thesis by (simp add: checkStat_iff)
next
  case (2 v)
  with assms(2) show ?thesis by (simp add: checkStat_iff)
next
  case (3 v)
  with assms(2) show ?thesis by (simp add: checkStat_iff)
next
  case (4 a v)
  with assms(2) show ?thesis by (simp add: checkStat_iff)
qed

lemma filePath_enables: "enables p p' \<Longrightarrow> filePath p' = filePath p"
  by (erule enables_cases) simp_all

lemma sim_visit:
  assumes "\<forall>st nm. checkStat p' st nm \<longrightarrow> checkStat p st nm" "sim wk' wk"
  shows "sim (visit p' w c f wk') (visit p w c f wk)"
  using assms
  by (cases wk'; cases wk)
    (auto simp: sim_def visit_def Let_def split: prod.splits)

lemma sim_read_loop:
  "\<forall>st nm. checkStat p' st nm \<longrightarrow> checkStat p st nm \<Longrightarrow> sim wk' wk
     \<Longrightarrow> sim (read_loop p' w h c wk') (read_loop p w h c wk)"
proof (induction p' w h c wk' arbitrary: wk rule: read_loop.induct)
  case (1 request w h cpath q result' s)
  from "1.prems" obtain result where wk: "wk = (q, result, s)" and sub: "set result' \<subseteq> set result"
    by (cases wk) (auto simp: sim_def)
  obtain x s' where rd: "readdir h s = (x, s')"
    by (cases "readdir h s") auto
  show ?case
  proof (cases x)
    case None
    with rd wk sub show ?thesis
      by (simp add: read_loop.simps [of _ _ _ _ q _ s] sim_def)
  next
    case (Some fileName)
    have "sim (q, result', s') (q, result, s')"
      using sub by (simp add: sim_def)
    with "1.prems"(1) have "sim (visit request w cpath fileName (q, result', s'))
        (visit p w cpath fileName (q, result, s'))"
      by (rule sim_visit)
    then have "sim (read_loop request w h cpath (visit request w cpath fileName (q, result', s')))
        (read_loop p w h cpath (visit p w cpath fileName (q, result, s')))"
      using "1.IH" [of x s' fileName] "1.prems"(1) rd Some by simp
    with rd Some wk show ?thesis
      by (simp add: read_loop.simps [of _ _ _ _ q _ s])
  qed
qed

lemma sim_bfs_loop:
  "\<forall>st nm. checkStat p' st nm \<longrightarrow> checkStat p st nm \<Longrightarrow> sim wk' wk
     \<Longrightarrow> (case (fst (bfs_loop p' w wk'), fst (bfs_loop p w wk)) of
            (None, None) \<Rightarrow> True
          | (Some r', Some r) \<Rightarrow> set r' \<subseteq> set r
          | _ \<Rightarrow> False)"
proof (induction p' w wk' arbitrary: wk rule: bfs_loop.induct)
  case (1 request w result' s)
  then show ?case
    by (cases wk) (auto simp: sim_def bfs_loop.simps)
next
  case (2 request w current q result' s)
  from "2.prems" obtain result where wk: "wk = (current # q, result, s)"
    and sub: "set result' \<subseteq> set result"
    by (cases wk) (auto simp: sim_def)
  show ?case
  proof (cases "dir current")
    case None
    with wk show ?thesis by (simp add: bfs_loop.simps)
  next
    case (Some h)
    obtain q1 r1 s1 where a: "read_loop request w h (path current) (q, result', s) = (q1, r1, s1)"
      by (cases "read_loop request w h (path current) (q, result', s)") auto
    obtain q2 r2 s2 where b: "read_loop p w h (path current) (q, result, s) = (q2, r2, s2)"
      by (cases "read_loop p w h (path current) (q, result, s)") auto
    have "sim (q, result', s) (q, result, s)"
      using sub by (simp add: sim_def)
    with "2.prems"(1) have "sim (read_loop request w h (path current) (q, result', s))
        (read_loop p w h (path current) (q, result, s))"
      by (rule sim_read_loop)
    with a b have "sim (q1, r1, closedir h s1) (q2, r2, closedir h s2)"
      by (simp add: sim_def)
    with "2.prems"(1) "2.IH" [of h q1 "(r1, s1)" r1 s1 "(q2, r2, closedir h s2)"] Some a
    have "case (fst (bfs_loop request w (q1, r1, closedir h s1)),
                fst (bfs_loop p w (q2, r2, closedir h s2))) of
            (None, None) \<Rightarrow> True
          | (Some r', Some r) \<Rightarrow> set r' \<subseteq> set r
          | _ \<Rightarrow> False"
      by simp
    with Some a b wk show ?thesis
      by (simp add: bfs_loop.simps)
  qed
qed

lemma sim_bfs:
  assumes "\<forall>st nm. checkStat p' st nm \<longrightarrow> checkStat p st nm" "filePath p' = filePath p"
  shows "case (fst (bfs p' w s), fst (bfs p w s)) of
            (None, None) \<Rightarrow> True
          | (Some r', Some r) \<Rightarrow> set r' \<subseteq> set r
          | _ \<Rightarrow> False"
proof (cases "opendir w (filePath p) s")
  case (Pair root s1)
  show ?thesis
  proof (cases root)
    case None
    with Pair assms(2) show ?thesis by (simp add: bfs_def)
  next
    case (Some h)
    have "sim ([\<lparr>dir = Some h, path = filePath p\<rparr>], [], s1)
        ([\<lparr>dir = Some h, path = filePath p\<rparr>], [], s1)"
      by (simp add: sim_def)
    with assms(1) have "case (fst (bfs_loop p' w ([\<lparr>dir = Some h, path = filePath p\<rparr>], [], s1)),
                fst (bfs_loop p w ([\<lparr>dir = Some h, path = filePath p\<rparr>], [], s1))) of
            (None, None) \<Rightarrow> True
          | (Some r', Some r) \<Rightarrow> set r' \<subseteq> set r
          | _ \<Rightarrow> False"
      by (rule sim_bfs_loop)
    with Pair Some assms(2) show ?thesis by (simp add: bfs_def)
  qed
qed

section \<open>The filters given on the command line\<close>

text \<open>
  Claim C1, which the code does not meet: with \<open>-inum N\<close> (with \<open>-nlinks N\<close>) only
  entries whose inode number (link count) is \<open>N\<close> are printed. \<open>parseArgs\<close> stores
  \<open>N\<close> and leaves \<open>inumNeeded\<close> (\<open>nlinksNeeded\<close>) false, so \<open>checkStat\<close> never
  compares it: \<open>find /tmp/t -inum 11\<close> prints \<open>/tmp/t/b\<close>, whose inode is 12, and
  \<open>find /tmp/t -nlinks 2\<close> prints \<open>/tmp/t/a\<close>, which has one link.
\<close>

theorem inum_nlinks_not_applied:
  "outlog (snd (main tree_world i n sz [''find'', ''/tmp/t'', ''-inum'', ''11'']))
     = [''/tmp/t/a'', ''/tmp/t/b'']
   \<and> link_stat tree_world ''/tmp/t/b'' = Some (mk_stat 12 0x81A4 2 20)
   \<and> outlog (snd (main tree_world i n sz [''find'', ''/tmp/t'', ''-nlinks'', ''2'']))
     = [''/tmp/t/a'', ''/tmp/t/b'']
   \<and> link_stat tree_world ''/tmp/t/a'' = Some (mk_stat 11 0x81A4 1 10)"
  by code_simp

text \<open>
  Claim C2, which the code does not meet: with \<open>-size XN\<close> an entry is printed only
  if its size is below, equal to or above \<open>N\<close>, as \<open>X\<close> says. \<open>parseArgs\<close> stores
  the relation and \<open>N\<close> and leaves \<open>sizeNeeded\<close> false: \<open>find /tmp/t\<close> with
  \<open>-size +15\<close>, with \<open>-size =15\<close> and with \<open>-size -15\<close> prints both \<open>/tmp/t/a\<close>
  (10 bytes) and \<open>/tmp/t/b\<close> (20 bytes).
\<close>

theorem size_not_applied:
  "outlog (snd (main tree_world i n sz [''find'', ''/tmp/t'', ''-size'', ''+15'']))
     = [''/tmp/t/a'', ''/tmp/t/b'']
   \<and> outlog (snd (main tree_world i n sz [''find'', ''/tmp/t'', ''-size'', ''=15'']))
     = [''/tmp/t/a'', ''/tmp/t/b'']
   \<and> outlog (snd (main tree_world i n sz [''find'', ''/tmp/t'', ''-size'', ''-15'']))
     = [''/tmp/t/a'', ''/tmp/t/b'']
   \<and> map (map_option st_size \<circ> link_stat tree_world) [''/tmp/t/a'', ''/tmp/t/b'']
     = [Some 10, Some 20]"
  by code_simp

section \<open>Descending into subdirectories\<close>

text \<open>
  Claim C3, which the code does not meet: a subdirectory that opens is enqueued and
  its entries are enumerated, so that without filters every file below the root is
  printed. The walk enqueues a frame only when \<open>opendir\<close> returns null: in
  \<open>find /tmp/t\<close> the directory \<open>/tmp/t/d\<close> opens (it is stream 1), none of its entries
  is read, and \<open>/tmp/t/d/c\<close> is not printed.
\<close>

theorem subdirectory_not_walked:
  "main tree_world i n sz [''find'', ''/tmp/t'']
     = (Exited 0,
        \<lparr>streams = [[], [''.'', ''..'', ''c'']], closed = [0], errlog = [],
         outlog = [''/tmp/t/a'', ''/tmp/t/b''], forked = []\<rparr>)"
  by code_simp

text \<open>
  Claim C4, which the code does not meet: every handle that \<open>opendir\<close> returns is
  closed exactly once before the walk returns. In \<open>find /tmp/t\<close> two streams are
  opened, the root (handle 0) and \<open>/tmp/t/d\<close> (handle 1); the walk returns having
  closed handle 0 only.
\<close>

theorem subdirectory_handle_leaked:
  "(case bfs (Request_init i n sz\<lparr>filePath := ''/tmp/t''\<rparr>) tree_world sys_init of
      (files, s) \<Rightarrow> files \<noteq> None \<and> length (streams s) = 2 \<and> closed s = [0]
                       \<and> count_list (closed s) 1 = 0)"
  by code_simp

section \<open>Entries whose metadata cannot be read\<close>

text \<open>
  Claim C5, which the code does not meet: an entry whose \<open>lstat\<close> fails is reported
  on standard error and is neither tested nor printed. The walk compares the result of
  \<open>lstat\<close> with 1, which \<open>lstat\<close> never returns: in \<open>find /srv\<close> the call for
  \<open>/srv/x\<close> fails, nothing is reported, and \<open>/srv/x\<close> is tested against the zeroed
  \<open>stat\<close> and printed.
\<close>

theorem lstat_failure_not_reported:
  "link_stat denied_world ''/srv/x'' = None
   \<and> main denied_world i n sz [''find'', ''/srv'']
     = (Exited 0,
        \<lparr>streams = [[]], closed = [0], errlog = [], outlog = [''/srv/x''], forked = []\<rparr>)"
  by code_simp

section \<open>Argument errors\<close>

text \<open>
  Claim C7: when the value of a \<open>-size\<close> flag (a flag stands at an even position
  \<open>k\<close> of \<open>argv\<close>, from 2 on, and its value at \<open>k + 1\<close>) begins with a character
  other than \<open>-\<close>, \<open>=\<close> and \<open>+\<close>, or is empty, the program writes one argument error
  to standard error and exits with \<open>EXIT_FAILURE\<close>, which is not 0; it has written
  nothing to standard output, opened no directory and created no child process.
\<close>

theorem bad_size_prefix_is_fatal:
  assumes "2 \<le> k" "even k" "k + 1 < length argv" "argv ! k = ''-size''"
    "char_at0 (argv ! (k + 1)) \<notin> {CHR ''-'', CHR ''='', CHR ''+''}"
  shows "\<exists>m \<in> {''Invalid number of arguments'', ''stoll'', ''Invalid value for -size argument''}.
           main w i n sz argv
             = (Exited EXIT_FAILURE,
                \<lparr>streams = [], closed = [], errlog = [m], outlog = [], forked = []\<rparr>)
           \<and> EXIT_FAILURE \<noteq> 0"
proof -
  obtain d where d: "k = 2 + 2 * d"
    using assms(1,2) by (metis evenE le_Suc_ex mult_2 one_add_one dvd_add_right_iff dvd_triv_left)
  have "parseArgs_loop (Request_init i n sz) argv 2 = Some (Inl (ExitFailure ''stoll''))
     \<or> parseArgs_loop (Request_init i n sz) argv 2
         = Some (Inl (ExitFailure ''Invalid value for -size argument''))"
    using assms(3-5) by (intro parseArgs_loop_bad_size [OF _ _ _ _ _ d]) simp_all
  then show ?thesis
    by (auto simp: main_def Let_def parseArgs_def printErr_def sys_init_def EXIT_FAILURE_def)
qed

theorem bad_size_prefix_is_fatal_witness:
  "\<exists>m. main tree_world 0 0 0 [''find'', ''/tmp/t'', ''-size'', ''*5'']
         = (Exited EXIT_FAILURE,
            \<lparr>streams = [], closed = [], errlog = [m], outlog = [], forked = []\<rparr>)"
  using bad_size_prefix_is_fatal [of 2 "[''find'', ''/tmp/t'', ''-size'', ''*5'']" tree_world 0 0 0]
  by (auto simp: char_at0_def)

section \<open>A root that cannot be opened\<close>

text \<open>
  Claim C8: when the command line is accepted and the root (\<open>argv[1]\<close>) cannot be
  opened as a directory, the walk reports the failure on standard error and returns
  the empty sequence of matches; without \<open>-exec\<close> the program then prints nothing
  and exits with 0.
\<close>

theorem unopenable_root:
  assumes "2 \<le> length argv" "even (length argv)"
    "parseArgs (Request_init i n sz) argv = Some (Inr request)"
    "dir_entries w (argv ! 1) = None"
  shows "bfs request w sys_init
           = (Some [], \<lparr>streams = [], closed = [], errlog = [''Unable to access root directory''],
                        outlog = [], forked = []\<rparr>)
       \<and> (\<not> exec_supplied argv \<longrightarrow>
            main w i n sz argv
              = (Exited 0, \<lparr>streams = [], closed = [],
                             errlog = [''Unable to access root directory''],
                             outlog = [], forked = []\<rparr>))"
proof -
  have ex: "execNeeded request = exec_supplied argv" and fp: "filePath request = argv ! 1"
    using assms(3) by (rule parseArgs_exec)+
  have b: "bfs request w sys_init
      = (Some [], \<lparr>streams = [], closed = [], errlog = [''Unable to access root directory''],
                   outlog = [], forked = []\<rparr>)"
    using assms(4) fp by (simp add: bfs_def opendir_def printErr_def sys_init_def)
  have "\<not> (int (length argv) < 2 \<or> (int (length argv) - 2) mod 2 = 1)"
    using assms(1,2) by presburger
  then have "\<not> exec_supplied argv \<Longrightarrow>
      main w i n sz argv
        = (Exited 0, \<lparr>streams = [], closed = [], errlog = [''Unable to access root directory''],
                       outlog = [], forked = []\<rparr>)"
    using assms(3) b ex by (simp add: main_def Let_def EXIT_SUCCESS_def)
  with b show ?thesis by blast
qed

theorem unopenable_root_witness:
  "main tree_world 0 0 0 [''find'', ''/nope'', ''-name'', ''a'']
     = (Exited 0, \<lparr>streams = [], closed = [], errlog = [''Unable to access root directory''],
                    outlog = [], forked = []\<rparr>)"
proof -
  have p: "parseArgs (Request_init 0 0 0) [''find'', ''/nope'', ''-name'', ''a'']
      = Some (Inr (Request_init 0 0 0\<lparr>filePath := ''/nope'', nameNeeded := True, name := ''a''\<rparr>))"
    by code_simp
  have d: "dir_entries tree_world ([''find'', ''/nope'', ''-name'', ''a''] ! 1) = None"
    by code_simp
  have e: "\<not> exec_supplied [''find'', ''/nope'', ''-name'', ''a'']"
    by code_simp
  show ?thesis
    using unopenable_root [OF _ _ p d] e by simp
qed

text \<open>
  Claim C6 as the spec states it: exactly one child process is spawned if and only if
  \<open>-exec P\<close> was supplied and the root directory was opened. It fails for
  \<open>find /nope -exec /bin/true\<close>, where \<open>/nope\<close> cannot be opened: \<open>main\<close> calls
  \<open>execute\<close> whenever \<open>execNeeded\<close> is set, and one child is created.
\<close>

theorem exec_without_root_counterexample:
  "\<not> (length (forked (snd (main tree_world 0 0 0 [''find'', ''/nope'', ''-exec'', ''/bin/true''])))
        = 1
      \<longleftrightarrow> exec_supplied [''find'', ''/nope'', ''-exec'', ''/bin/true'']
          \<and> dir_entries tree_world ''/nope'' \<noteq> None)"
  by code_simp

text \<open>
  Claim C6, amended: when the command line is accepted, the walk returns and \<open>fork\<close>
  succeeds, exactly one child process is spawned if and only if \<open>-exec P\<close> was
  supplied, whether the root directory was opened or not. The child runs \<open>P\<close> with
  the argument vector \<open>P\<close> followed by the matches, which is \<open>P\<close> alone when the
  root cannot be opened. Without \<open>-exec\<close> no child is spawned.
\<close>

theorem exec_spawns_child:
  assumes "2 \<le> length argv" "even (length argv)"
    "parseArgs (Request_init i n sz) argv = Some (Inr request)"
    "bfs request w sys_init = (Some files, s)"
    "fork_ok w"
  shows "(length (forked (snd (main w i n sz argv))) = 1 \<longleftrightarrow> exec_supplied argv)
       \<and> (exec_supplied argv \<longrightarrow>
            forked (snd (main w i n sz argv))
              = [(executionPath request, executionPath request # files)])
       \<and> (\<not> exec_supplied argv \<longrightarrow> forked (snd (main w i n sz argv)) = [])
       \<and> (dir_entries w (argv ! 1) = None \<longrightarrow> files = [])"
proof -
  have ex: "execNeeded request = exec_supplied argv" and fp: "filePath request = argv ! 1"
    using assms(3) by (rule parseArgs_exec)+
  have f: "forked s = []"
    using io_bfs [of request w sys_init] assms(4) by (simp add: sys_init_def)
  have a: "\<not> (int (length argv) < 2 \<or> (int (length argv) - 2) mod 2 = 1)"
    using assms(1,2) by presburger
  have yes: "forked (snd (main w i n sz argv))
      = [(executionPath request, executionPath request # files)]" if "exec_supplied argv"
    using that a assms(3-5) ex f
    by (simp add: main_def Let_def execute_def printErr_def split: prod.splits)
  have no: "forked (snd (main w i n sz argv)) = []" if "\<not> exec_supplied argv"
    using that a assms(3-5) ex f by (simp add: main_def Let_def)
  have "files = []" if "dir_entries w (argv ! 1) = None"
    using that assms(4) fp by (simp add: bfs_def opendir_def)
  with yes no show ?thesis by (cases "exec_supplied argv") simp_all
qed

theorem exec_spawns_child_witness:
  "forked (snd (main tree_world 0 0 0 [''find'', ''/nope'', ''-exec'', ''/bin/true'']))
     = [(''/bin/true'', [''/bin/true''])]"
proof -
  have p: "parseArgs (Request_init 0 0 0) [''find'', ''/nope'', ''-exec'', ''/bin/true'']
      = Some (Inr (Request_init 0 0 0\<lparr>filePath := ''/nope'', execNeeded := True,
                  executionPath := ''/bin/true''\<rparr>))"
    by code_simp
  have b: "bfs (Request_init 0 0 0\<lparr>filePath := ''/nope'', execNeeded := True,
                  executionPath := ''/bin/true''\<rparr>) tree_world sys_init
      = (Some [], sys_init\<lparr>errlog := [''Unable to access root directory'']\<rparr>)"
    by code_simp
  have f: "fork_ok tree_world"
    by code_simp
  have e: "exec_supplied [''find'', ''/nope'', ''-exec'', ''/bin/true'']"
    by code_simp
  show ?thesis
    using exec_spawns_child [OF _ _ p b f] e by simp
qed

section \<open>The conjunction law\<close>

text \<open>
  Claim C9: for every predicate \<open>p\<close>, every predicate \<open>p'\<close> obtained from \<open>p\<close> by
  enabling one more field, and every file system, the result set of the walk under
  \<open>p'\<close> is included in the result set under \<open>p\<close>; the two walks return or fail to
  return together.
\<close>

theorem conjunction_law:
  assumes "enables p p'"
  shows "matches p' w \<subseteq> matches p w
       \<and> (fst (bfs p' w sys_init) = None \<longleftrightarrow> fst (bfs p w sys_init) = None)"
proof -
  have "\<forall>st nm. checkStat p' st nm \<longrightarrow> checkStat p st nm"
    using assms by (blast intro: checkStat_enables)
  moreover have "filePath p' = filePath p"
    using assms by (rule filePath_enables)
  ultimately have "case (fst (bfs p' w sys_init), fst (bfs p w sys_init)) of
            (None, None) \<Rightarrow> True
          | (Some r', Some r) \<Rightarrow> set r' \<subseteq> set r
          | _ \<Rightarrow> False"
    by (rule sim_bfs)
  then show ?thesis
    by (auto simp: matches_def split: option.splits)
qed

theorem conjunction_law_witness:
  "matches (Request_init 0 0 0\<lparr>filePath := ''/tmp/t'', nameNeeded := True, name := ''a''\<rparr>) tree_world
     \<subseteq> matches (Request_init 0 0 0\<lparr>filePath := ''/tmp/t''\<rparr>) tree_world"
proof -
  have "enables (Request_init 0 0 0\<lparr>filePath := ''/tmp/t''\<rparr>)
     (Request_init 0 0 0\<lparr>filePath := ''/tmp/t'', nameNeeded := True, name := ''a''\<rparr>)"
    by (simp add: enables_def Request_init_def)
  then show ?thesis
    using conjunction_law by blast
qed

section \<open>Numbers on the command line\<close>

text \<open>
  Claim C10: a number is read by \<open>stoll\<close> as a \<open>long long\<close> and returned as an
  \<open>int\<close>. Every string of decimal digits whose value is below \<open>2^63\<close> is accepted
  and its value is reduced modulo \<open>2^32\<close>, so that from \<open>2^31\<close> on the \<open>int\<close>
  differs from the number written; the same digits after a minus sign are accepted as
  a negative number. These values reach \<open>inodeNumber\<close>, \<open>nlinkNumber\<close> and \<open>size\<close>
  by sign extension.
\<close>

theorem parseNumber_truncates:
  assumes "ds \<noteq> []" "list_all isdigit ds" "decimal ds < 2 ^ 63"
  shows "parseNumber ds = Inr (word_of_int (decimal ds))
       \<and> parseNumber (CHR ''-'' # ds) = Inr (word_of_int (- decimal ds))
       \<and> (2 ^ 31 \<le> decimal ds \<longrightarrow> sint (word_of_int (decimal ds) :: c_int) \<noteq> decimal ds)
       \<and> parseArg r ''-inum'' ds
           = Inr (r\<lparr>inodeNumber := scast (word_of_int (decimal ds) :: c_int)\<rparr>)
       \<and> parseArg r ''-nlinks'' (CHR ''-'' # ds)
           = Inr (r\<lparr>nlinkNumber := scast (word_of_int (- decimal ds) :: c_int)\<rparr>)
       \<and> parseArg r ''-size'' (CHR ''+'' # ds)
           = Inr (r\<lparr>neededSizeArea := GREATER,
                   size_rq := scast (word_of_int (decimal ds) :: c_int)\<rparr>)"
proof -
  have a: "parseNumber ds = Inr (word_of_int (decimal ds))"
    by (simp only: parseNumber_def stoll_digits(1) [OF assms] sum.case int_of_long_long)
  have b: "parseNumber (CHR ''-'' # ds) = Inr (word_of_int (- decimal ds))"
    by (simp only: parseNumber_def stoll_digits(2) [OF assms] sum.case int_of_long_long)
  have "sint (word_of_int (decimal ds) :: c_int) < 2 ^ 31"
    using sint_lt [of "word_of_int (decimal ds) :: c_int"] by simp
  then have c: "2 ^ 31 \<le> decimal ds \<longrightarrow> sint (word_of_int (decimal ds) :: c_int) \<noteq> decimal ds"
    by linarith
  have d: "parseArg r ''-inum'' ds
      = Inr (r\<lparr>inodeNumber := scast (word_of_int (decimal ds) :: c_int)\<rparr>)"
    by (simp add: parseArg_def a)
  have e: "parseArg r ''-nlinks'' (CHR ''-'' # ds)
      = Inr (r\<lparr>nlinkNumber := scast (word_of_int (- decimal ds) :: c_int)\<rparr>)"
    by (simp only: parseArg_def b) simp
  have f: "parseArg r ''-size'' (CHR ''+'' # ds)
      = Inr (r\<lparr>neededSizeArea := GREATER,
              size_rq := scast (word_of_int (decimal ds) :: c_int)\<rparr>)"
    by (simp add: parseArg_def char_at0_def a)
  show ?thesis
    using a b c d e f by (simp only: simp_thms)
qed

theorem parseNumber_truncates_witness:
  "parseNumber ''4294967301'' = Inr 5 \<and> parseNumber ''-4294967301'' = Inr (- 5)
   \<and> parseArg (Request_init 0 0 0) ''-inum'' ''4294967301''
       = Inr (Request_init 0 0 0\<lparr>inodeNumber := 5\<rparr>)"
proof -
  have h: "''4294967301'' \<noteq> []" "list_all isdigit ''4294967301''"
    "decimal ''4294967301'' < 2 ^ 63"
    by code_simp+
  have d: "decimal ''4294967301'' = 4294967301"
    by code_simp
  show ?thesis
    using parseNumber_truncates [OF h, of "Request_init 0 0 0"] by (simp add: d)
qed

end
